theory Spec2Isabelle
  imports Complex_Main "HOL-Library.Sublist" "HOL-Library.Monad_Syntax"
begin

section \<open>Conventions of the embedding\<close>

text \<open>
  The four Python modules \<^verbatim>\<open>bruteforce.py\<close>, \<^verbatim>\<open>optimized.py\<close>,
  \<^verbatim>\<open>sac_a_dos_dynamique.py\<close> and \<^verbatim>\<open>analyse_datasets.py\<close> are embedded as HOL functions.

  \<^item> Python \<^verbatim>\<open>float\<close> values are modelled as exact rationals (\<^typ>\<open>rat\<close>): the theory is
    about the algorithms, not about IEEE rounding. Every concrete input used below was
    chosen so that the Python float computation takes the same branches.
  \<^item> \<^verbatim>\<open>int(x)\<close> on a float truncates towards zero (\<open>py_int\<close>).
  \<^item> An action is a Python dictionary. The keys \<^verbatim>\<open>nom\<close>, \<^verbatim>\<open>cout\<close> and
    \<^verbatim>\<open>benefice_pct\<close> are written by every constructor of the repository; the keys
    \<^verbatim>\<open>benefice_euros\<close> and \<^verbatim>\<open>ratio\<close> are written by some constructors only, so
    they are optional fields and reading an absent one is a \<^verbatim>\<open>KeyError\<close>.
  \<^item> A raised exception (\<^verbatim>\<open>KeyError\<close>, \<^verbatim>\<open>IndexError\<close>, \<^verbatim>\<open>ZeroDivisionError\<close>) is
    the result \<open>None\<close>.
  \<^item> Console output (\<^verbatim>\<open>print\<close>) and the counter that is only printed are left out.
\<close>

record action =
  nom :: string
  cout :: rat
  benefice_pct :: rat
  benefice_euros :: "rat option"
  ratio :: "rat option"

text \<open>The dictionary returned by every optimizer: keys \<^verbatim>\<open>actions\<close>, \<^verbatim>\<open>cout_total\<close>,
  \<^verbatim>\<open>benefice_total\<close>.\<close>

record 'a solution =
  actions :: "'a list"
  cout_total :: rat
  benefice_total :: rat

definition py_int :: "rat \<Rightarrow> int" where
  "py_int x = (if 0 \<le> x then floor x else ceiling x)"

subsection \<open>Constructors of action dictionaries\<close>

text \<open>\<^verbatim>\<open>bruteforce.lire_fichier_actions\<close> builds \<^verbatim>\<open>{"nom", "cout", "benefice_pct"}\<close> with no
  check at all.\<close>

definition creer_action_bruteforce :: "string \<Rightarrow> rat \<Rightarrow> rat \<Rightarrow> action" where
  "creer_action_bruteforce n c p =
     \<lparr>nom = n, cout = c, benefice_pct = p, benefice_euros = None, ratio = None\<rparr>"

text \<open>\<^verbatim>\<open>optimized.creer_action_depuis_ligne\<close>, after the two \<^verbatim>\<open>float(...)\<close> conversions.\<close>

definition creer_action_optimized :: "string \<Rightarrow> rat \<Rightarrow> rat \<Rightarrow> action option" where
  "creer_action_optimized n c p =
     (if c \<le> 0 \<or> p \<le> 0 then None
      else Some \<lparr>nom = n, cout = c, benefice_pct = p, benefice_euros = None,
                 ratio = Some (p / c)\<rparr>)"

text \<open>\<^verbatim>\<open>sac_a_dos_dynamique.creer_action_depuis_ligne\<close>, after the conversions.\<close>

definition creer_action_sac_a_dos :: "string \<Rightarrow> rat \<Rightarrow> rat \<Rightarrow> action option" where
  "creer_action_sac_a_dos n c p =
     (if c \<le> 0 \<or> p \<le> 0 then None
      else Some \<lparr>nom = n, cout = c, benefice_pct = p, benefice_euros = Some (c * p / 100),
                 ratio = None\<rparr>)"

text \<open>\<^verbatim>\<open>analyse_datasets.creer_action_depuis_dataset\<close>, after \<^verbatim>\<open>strip\<close> and the
  conversions: an empty name is rejected too.\<close>

definition creer_action_depuis_dataset :: "string \<Rightarrow> rat \<Rightarrow> rat \<Rightarrow> action option" where
  "creer_action_depuis_dataset n prix profit_pct =
     (if n = [] \<or> prix \<le> 0 \<or> profit_pct \<le> 0 then None
      else Some \<lparr>nom = n, cout = prix, benefice_pct = profit_pct,
                 benefice_euros = Some (prix * profit_pct / 100), ratio = None\<rparr>)"

text \<open>The validity invariant of the specification (the check of the three validating
  constructors), and the two derived keys holding their derived values.\<close>

definition action_valide :: "action \<Rightarrow> bool" where
  "action_valide a \<longleftrightarrow> 0 < cout a \<and> 0 < benefice_pct a"

definition benefice_derive :: "action \<Rightarrow> bool" where
  "benefice_derive a \<longleftrightarrow> benefice_euros a = Some (cout a * benefice_pct a / 100)"


section \<open>bruteforce.py\<close>

definition calculer_benefice_total :: "action list \<Rightarrow> rat \<times> rat" where
  "calculer_benefice_total actions_selectionnees =
     foldl (\<lambda>(ct, bt) a. (ct + cout a, bt + cout a * benefice_pct a / 100)) (0, 0)
       actions_selectionnees"

text \<open>\<^verbatim>\<open>itertools.combinations(xs, k)\<close>: the \<open>k\<close>-element subsequences of \<open>xs\<close> in
  lexicographic order of their positions.\<close>

fun combinations :: "'a list \<Rightarrow> nat \<Rightarrow> 'a list list" where
  "combinations xs 0 = [[]]"
| "combinations [] (Suc k) = []"
| "combinations (x # xs) (Suc k) = map ((#) x) (combinations xs k) @ combinations xs (Suc k)"

text \<open>The body of the inner loop: one candidate against the running best.\<close>

definition garder_meilleure ::
  "rat \<Rightarrow> action solution \<Rightarrow> action list \<Rightarrow> action solution" where
  "garder_meilleure budget_max meilleure_solution combinaison =
     (case calculer_benefice_total combinaison of (ct, bt) \<Rightarrow>
        if ct \<le> budget_max then
          (if bt > benefice_total meilleure_solution
           then \<lparr>actions = combinaison, cout_total = ct, benefice_total = bt\<rparr>
           else meilleure_solution)
        else meilleure_solution)"

definition trouver_meilleure_combinaison :: "action list \<Rightarrow> rat \<Rightarrow> action solution" where
  "trouver_meilleure_combinaison acts budget_max =
     foldl (\<lambda>meilleure taille.
              foldl (garder_meilleure budget_max) meilleure (combinations acts taille))
       \<lparr>actions = [], cout_total = 0, benefice_total = 0\<rparr>
       [1 ..< length acts + 1]"

section \<open>optimized.py\<close>

text \<open>\<^verbatim>\<open>sorted(xs, key=..., reverse=True)\<close>: a stable sort by descending key (elements with
  equal keys keep their original order).\<close>

definition sorted_reverse :: "('a \<Rightarrow> rat) \<Rightarrow> 'a list \<Rightarrow> 'a list" where
  "sorted_reverse k xs = sort_key (\<lambda>a. - k a) xs"

text \<open>The selection loop; its state is \<^verbatim>\<open>budget_restant\<close> and \<^verbatim>\<open>actions_selectionnees\<close>.\<close>

fun selectionner :: "action list \<Rightarrow> rat \<Rightarrow> action list \<Rightarrow> action list" where
  "selectionner [] budget_restant actions_selectionnees = actions_selectionnees"
| "selectionner (a # reste) budget_restant actions_selectionnees =
     (if cout a \<le> budget_restant
      then selectionner reste (budget_restant - cout a) (actions_selectionnees @ [a])
      else selectionner reste budget_restant actions_selectionnees)"

text \<open>\<^verbatim>\<open>optimized.calculer_solution\<close> recomputes the profit from \<^verbatim>\<open>cout\<close> and
  \<^verbatim>\<open>benefice_pct\<close>.\<close>

definition calculer_solution_optimized :: "action list \<Rightarrow> action solution" where
  "calculer_solution_optimized actions_selectionnees =
     \<lparr>actions = actions_selectionnees,
      cout_total = sum_list (map cout actions_selectionnees),
      benefice_total =
        sum_list (map (\<lambda>a. cout a * benefice_pct a / 100) actions_selectionnees)\<rparr>"

text \<open>\<^verbatim>\<open>optimized.algorithme_glouton\<close>. The sort reads \<^verbatim>\<open>a["ratio"]\<close> of every action.\<close>

definition algorithme_glouton :: "action list \<Rightarrow> rat \<Rightarrow> action solution option" where
  "algorithme_glouton acts budget_max =
     (if list_all (\<lambda>a. ratio a \<noteq> None) acts
      then Some (calculer_solution_optimized
                   (selectionner (sorted_reverse (\<lambda>a. the (ratio a)) acts) budget_max []))
      else None)"

section \<open>sac\_a\_dos\_dynamique.py\<close>

text \<open>List indexing and item assignment. \<open>None\<close> is returned for every index outside
  \<open>0 .. len - 1\<close>: above the range Python raises \<^verbatim>\<open>IndexError\<close>, and for a negative
  index it would count from the end of the list (or raise). A result \<open>Some v\<close> is
  therefore the value Python reads, with an index that is in range.\<close>

definition idx :: "'a list \<Rightarrow> int \<Rightarrow> 'a option" where
  "idx xs i = (if 0 \<le> i \<and> i < int (length xs) then Some (xs ! nat i) else None)"

definition upd :: "'a list \<Rightarrow> int \<Rightarrow> 'a \<Rightarrow> 'a list option" where
  "upd xs i v = (if 0 \<le> i \<and> i < int (length xs) then Some (xs[nat i := v]) else None)"

text \<open>\<^verbatim>\<open>range(lo, hi)\<close>.\<close>

definition py_range :: "int \<Rightarrow> int \<Rightarrow> int list" where
  "py_range lo hi = map (\<lambda>k. lo + int k) [0 ..< nat (hi - lo)]"

text \<open>A \<^verbatim>\<open>for\<close> loop whose body may raise.\<close>

fun for_each :: "'a list \<Rightarrow> ('a \<Rightarrow> 's \<Rightarrow> 's option) \<Rightarrow> 's \<Rightarrow> 's option" where
  "for_each [] body s = Some s"
| "for_each (x # xs) body s = (case body x s of None \<Rightarrow> None | Some s' \<Rightarrow> for_each xs body s')"

text \<open>\<^verbatim>\<open>{**action, "cout_centimes": ..., "benefice_centimes": ...}\<close>: a new dictionary
  with every key of the original and two more.\<close>

record action_centimes =
  origine :: action
  cout_centimes :: int
  benefice_centimes :: int

fun convertir_actions_en_centimes :: "action list \<Rightarrow> action_centimes list option" where
  "convertir_actions_en_centimes [] = Some []"
| "convertir_actions_en_centimes (a # reste) =
     (case benefice_euros a of
        None \<Rightarrow> None
      | Some be \<Rightarrow>
          (case convertir_actions_en_centimes reste of
             None \<Rightarrow> None
           | Some reste' \<Rightarrow>
               Some (\<lparr>origine = a, cout_centimes = py_int (cout a * 100),
                      benefice_centimes = py_int (be * 100)\<rparr> # reste')))"

text \<open>The body of the inner loop of \<^verbatim>\<open>creer_table_dynamique\<close>, for row \<open>i\<close> and
  budget level \<open>b\<close>.\<close>

definition remplir_case ::
  "int \<Rightarrow> int \<Rightarrow> int \<Rightarrow> int \<Rightarrow> int list list \<Rightarrow> int list list option" where
  "remplir_case i c benefice b table =
     do {
       ligne_prec \<leftarrow> idx table (i - 1);
       ne_pas_prendre \<leftarrow> idx ligne_prec b;
       prendre \<leftarrow> (if c \<le> b
                   then do { v \<leftarrow> idx ligne_prec (b - c); Some (v + benefice) }
                   else Some 0);
       ligne \<leftarrow> idx table i;
       ligne' \<leftarrow> upd ligne b (max ne_pas_prendre prendre);
       upd table i ligne'
     }"

text \<open>The body of the outer loop.\<close>

definition remplir_ligne ::
  "action_centimes list \<Rightarrow> int \<Rightarrow> int \<Rightarrow> int list list \<Rightarrow> int list list option" where
  "remplir_ligne actions_centimes budget_centimes i table =
     do {
       action \<leftarrow> idx actions_centimes (i - 1);
       for_each (py_range 0 (budget_centimes + 1))
         (remplir_case i (cout_centimes action) (benefice_centimes action)) table
     }"

definition creer_table_dynamique ::
  "action_centimes list \<Rightarrow> int \<Rightarrow> int list list option" where
  "creer_table_dynamique actions_centimes budget_centimes =
     (let n = int (length actions_centimes);
          table = replicate (nat (n + 1)) (replicate (nat (budget_centimes + 1)) (0::int))
      in for_each (py_range 1 (n + 1)) (remplir_ligne actions_centimes budget_centimes) table)"

text \<open>The \<^verbatim>\<open>while i > 0 and b > 0\<close> loop of \<^verbatim>\<open>retrouver_actions\<close>; \<open>i\<close> decreases by one
  in every iteration.\<close>

fun remonter ::
  "action list \<Rightarrow> action_centimes list \<Rightarrow> int list list \<Rightarrow> nat \<Rightarrow> int \<Rightarrow> action list
     \<Rightarrow> action list option" where
  "remonter acts actions_centimes table 0 b actions_selectionnees = Some actions_selectionnees"
| "remonter acts actions_centimes table (Suc i) b actions_selectionnees =
     (if b > 0 then
        do {
          ligne \<leftarrow> idx table (int (Suc i));
          v \<leftarrow> idx ligne b;
          ligne_prec \<leftarrow> idx table (int i);
          v_prec \<leftarrow> idx ligne_prec b;
          if v \<noteq> v_prec then
            do {
              a \<leftarrow> idx acts (int i);
              ac \<leftarrow> idx actions_centimes (int i);
              remonter acts actions_centimes table i (b - cout_centimes ac)
                (actions_selectionnees @ [a])
            }
          else remonter acts actions_centimes table i b actions_selectionnees
        }
      else Some actions_selectionnees)"

definition retrouver_actions ::
  "action list \<Rightarrow> action_centimes list \<Rightarrow> int list list \<Rightarrow> int \<Rightarrow> action list option" where
  "retrouver_actions acts actions_centimes table budget_centimes =
     map_option rev
       (remonter acts actions_centimes table (length actions_centimes) budget_centimes [])"

text \<open>\<^verbatim>\<open>calculer_solution\<close> of \<^verbatim>\<open>sac_a_dos_dynamique.py\<close> and of \<^verbatim>\<open>analyse_datasets.py\<close>
  (the same code): the totals are sums of the original \<^verbatim>\<open>cout\<close> and \<^verbatim>\<open>benefice_euros\<close>.\<close>

fun lire_benefices :: "action list \<Rightarrow> rat list option" where
  "lire_benefices [] = Some []"
| "lire_benefices (a # reste) =
     (case benefice_euros a of
        None \<Rightarrow> None
      | Some be \<Rightarrow> map_option ((#) be) (lire_benefices reste))"

definition calculer_solution :: "action list \<Rightarrow> action solution option" where
  "calculer_solution actions_selectionnees =
     map_option
       (\<lambda>bes. \<lparr>actions = actions_selectionnees,
               cout_total = sum_list (map cout actions_selectionnees),
               benefice_total = sum_list bes\<rparr>)
       (lire_benefices actions_selectionnees)"

definition algorithme_sac_a_dos :: "action list \<Rightarrow> rat \<Rightarrow> action solution option" where
  "algorithme_sac_a_dos acts budget_max =
     (let budget_centimes = py_int (budget_max * 100) in
      do {
        actions_centimes \<leftarrow> convertir_actions_en_centimes acts;
        table \<leftarrow> creer_table_dynamique actions_centimes budget_centimes;
        actions_selectionnees \<leftarrow> retrouver_actions acts actions_centimes table budget_centimes;
        calculer_solution actions_selectionnees
      })"

section \<open>analyse\_datasets.py\<close>

text \<open>The first loop of \<^verbatim>\<open>analyse_datasets.algorithme_glouton\<close> assigns
  \<^verbatim>\<open>action["ratio"]\<close> in every dictionary of the caller's list. The function returns the
  list as the loop leaves it, and whether the loop ran to its end: a zero cost raises
  \<^verbatim>\<open>ZeroDivisionError\<close>, and the dictionaries before it have been written already. The
  value assigned depends on the dictionary alone, so a dictionary that occurs twice in the
  list gets the same value at both places.\<close>

fun calculer_ratios :: "action list \<Rightarrow> action list \<times> bool" where
  "calculer_ratios [] = ([], True)"
| "calculer_ratios (a # reste) =
     (if cout a = 0 then (a # reste, False)
      else (case calculer_ratios reste of
              (reste', fini) \<Rightarrow> (a\<lparr>ratio := Some (benefice_pct a / cout a)\<rparr> # reste', fini)))"

text \<open>\<^verbatim>\<open>analyse_datasets.algorithme_glouton\<close>: the caller's list after the call, and the
  returned solution.\<close>

definition algorithme_glouton_analyse ::
  "action list \<Rightarrow> rat \<Rightarrow> action list \<times> action solution option" where
  "algorithme_glouton_analyse acts budget_max =
     (case calculer_ratios acts of
        (acts', fini) \<Rightarrow>
          (acts',
           if fini
           then calculer_solution
                  (selectionner (sorted_reverse (\<lambda>a. the (ratio a)) acts') budget_max [])
           else None))"

text \<open>\<^verbatim>\<open>analyse_datasets.algorithme_dynamique\<close> is the code of \<^verbatim>\<open>algorithme_sac_a_dos\<close>
  and of its four helpers written out in one function body.\<close>

definition algorithme_dynamique :: "action list \<Rightarrow> rat \<Rightarrow> action solution option" where
  "algorithme_dynamique acts budget_max =
     (let budget_centimes = py_int (budget_max * 100) in
      do {
        actions_centimes \<leftarrow> convertir_actions_en_centimes acts;
        table \<leftarrow>
          (let n = int (length actions_centimes);
               table = replicate (nat (n + 1)) (replicate (nat (budget_centimes + 1)) (0::int))
           in for_each (py_range 1 (n + 1)) (remplir_ligne actions_centimes budget_centimes)
                table);
        actions_selectionnees \<leftarrow>
          remonter acts actions_centimes table (length actions_centimes) budget_centimes [];
        calculer_solution (rev actions_selectionnees)
      })"




section \<open>The recurrence with exclusion only\<close>

text \<open>The recurrence in the words of the specification's design note: where the action
  does not fit (\<open>c > b\<close>) only exclusion is considered, and no value stands for the
  inclusion. The two definitions below differ from \<open>remplir_case\<close> and
  \<open>creer_table_dynamique\<close> in that branch alone.\<close>

definition remplir_case_exclusion ::
  "int \<Rightarrow> int \<Rightarrow> int \<Rightarrow> int \<Rightarrow> int list list \<Rightarrow> int list list option" where
  "remplir_case_exclusion i c benefice b table =
     do {
       ligne_prec \<leftarrow> idx table (i - 1);
       ne_pas_prendre \<leftarrow> idx ligne_prec b;
       valeur \<leftarrow> (if c \<le> b
                  then do { v \<leftarrow> idx ligne_prec (b - c);
                            Some (max ne_pas_prendre (v + benefice)) }
                  else Some ne_pas_prendre);
       ligne \<leftarrow> idx table i;
       ligne' \<leftarrow> upd ligne b valeur;
       upd table i ligne'
     }"

definition creer_table_exclusion ::
  "action_centimes list \<Rightarrow> int \<Rightarrow> int list list option" where
  "creer_table_exclusion actions_centimes budget_centimes =
     (let n = int (length actions_centimes);
          table = replicate (nat (n + 1)) (replicate (nat (budget_centimes + 1)) (0::int))
      in for_each (py_range 1 (n + 1))
           (\<lambda>i table.
              do {
                action \<leftarrow> idx actions_centimes (i - 1);
                for_each (py_range 0 (budget_centimes + 1))
                  (remplir_case_exclusion i (cout_centimes action) (benefice_centimes action))
                  table
              })
           table)"

section \<open>The table as a recurrence\<close>

text \<open>The value that the loop body writes at column \<open>k\<close> from the row above, and the rows
  this yields. They are used to state what the loops compute.\<close>

definition valeur_case :: "int \<Rightarrow> int \<Rightarrow> int list \<Rightarrow> nat \<Rightarrow> int" where
  "valeur_case c benefice prec k =
     max (prec ! k) (if c \<le> int k then prec ! nat (int k - c) + benefice else 0)"

definition valeur_case_exclusion :: "int \<Rightarrow> int \<Rightarrow> int list \<Rightarrow> nat \<Rightarrow> int" where
  "valeur_case_exclusion c benefice prec k =
     (if c \<le> int k then max (prec ! k) (prec ! nat (int k - c) + benefice) else prec ! k)"

fun ligne_table :: "action_centimes list \<Rightarrow> nat \<Rightarrow> nat \<Rightarrow> int list" where
  "ligne_table acs W 0 = replicate W 0"
| "ligne_table acs W (Suc i) =
     map (valeur_case (cout_centimes (acs ! i)) (benefice_centimes (acs ! i))
            (ligne_table acs W i)) [0 ..< W]"

fun ligne_table_exclusion :: "action_centimes list \<Rightarrow> nat \<Rightarrow> nat \<Rightarrow> int list" where
  "ligne_table_exclusion acs W 0 = replicate W 0"
| "ligne_table_exclusion acs W (Suc i) =
     map (valeur_case_exclusion (cout_centimes (acs ! i)) (benefice_centimes (acs ! i))
            (ligne_table_exclusion acs W i)) [0 ..< W]"

text \<open>The dictionary that \<^verbatim>\<open>convertir_actions_en_centimes\<close> builds from an action that
  has the key \<^verbatim>\<open>benefice_euros\<close>.\<close>

definition en_centimes :: "action \<Rightarrow> action_centimes" where
  "en_centimes a = \<lparr>origine = a, cout_centimes = py_int (cout a * 100),
                     benefice_centimes = py_int (the (benefice_euros a) * 100)\<rparr>"

section \<open>Candidates of the exhaustive search\<close>

text \<open>The combinations in the order in which the two nested loops of
  \<^verbatim>\<open>trouver_meilleure_combinaison\<close> visit them, and the two totals of a list of actions.\<close>

definition candidats :: "'a list \<Rightarrow> 'a list list" where
  "candidats acts = concat (map (combinations acts) [1 ..< length acts + 1])"

definition cout_de :: "action list \<Rightarrow> rat" where
  "cout_de sel = sum_list (map cout sel)"

definition benefice_de :: "action list \<Rightarrow> rat" where
  "benefice_de sel = sum_list (map (\<lambda>a. cout a * benefice_pct a / 100) sel)"

text \<open>The totals of a list of actions after the scaling to centimes.\<close>

definition cout_centimes_de :: "action list \<Rightarrow> int" where
  "cout_centimes_de sel = sum_list (map (\<lambda>a. py_int (cout a * 100)) sel)"

definition benefice_centimes_de :: "action list \<Rightarrow> int" where
  "benefice_centimes_de sel = sum_list (map (\<lambda>a. py_int (the (benefice_euros a) * 100)) sel)"

section \<open>Example inputs\<close>

definition vide :: "action solution" where
  "vide = \<lparr>actions = [], cout_total = 0, benefice_total = 0\<rparr>"

definition exemple_a :: action where
  "exemple_a = \<lparr>nom = ''Action-A'', cout = 1 / 10, benefice_pct = 15,
                 benefice_euros = Some (3 / 200), ratio = None\<rparr>"

definition exemple_b :: action where
  "exemple_b = \<lparr>nom = ''Action-B'', cout = 1 / 10, benefice_pct = 19,
                 benefice_euros = Some (19 / 1000), ratio = None\<rparr>"

definition exemple_c :: action where
  "exemple_c = \<lparr>nom = ''Action-C'', cout = 21 / 200, benefice_pct = 10,
                 benefice_euros = Some (21 / 2000), ratio = None\<rparr>"

definition exemple_d :: action where
  "exemple_d = \<lparr>nom = ''Action-D'', cout = 1 / 10, benefice_pct = 5,
                 benefice_euros = Some (1 / 200), ratio = None\<rparr>"

text \<open>\<open>exemple_d\<close> as \<^verbatim>\<open>analyse_datasets.algorithme_glouton\<close> leaves it, with both derived
  keys.\<close>

definition exemple_e :: action where
  "exemple_e = \<lparr>nom = ''Action-D'', cout = 1 / 10, benefice_pct = 5,
                 benefice_euros = Some (1 / 200), ratio = Some 50\<rparr>"

section \<open>The example inputs are built by the repository's constructors\<close>

lemma exemples_construits:
  "creer_action_sac_a_dos ''Action-A'' (1 / 10) 15 = Some exemple_a"
  "creer_action_sac_a_dos ''Action-B'' (1 / 10) 19 = Some exemple_b"
  "creer_action_sac_a_dos ''Action-C'' (21 / 200) 10 = Some exemple_c"
  "creer_action_depuis_dataset ''Action-D'' (1 / 10) 5 = Some exemple_d"
  by (simp_all add: creer_action_sac_a_dos_def creer_action_depuis_dataset_def
      exemple_a_def exemple_b_def exemple_c_def exemple_d_def)

section \<open>The comparator\<close>



section \<open>The loops of the table construction\<close>

lemma for_each_append:
  "for_each (xs @ ys) body s =
     (case for_each xs body s of None \<Rightarrow> None | Some s' \<Rightarrow> for_each ys body s')"
  by (induction xs arbitrary: s) (auto split: option.splits)

lemma for_each_snoc:
  "for_each xs body s = Some s' \<Longrightarrow> for_each (xs @ [x]) body s = body x s'"
  by (simp add: for_each_append split: option.splits)

lemma py_range_0: "py_range 0 hi = map int [0 ..< nat hi]"
  by (simp add: py_range_def)

lemma map_upt_update:
  assumes "k < W"
  shows "(map (\<lambda>j. if j < k then f j else g j) [0 ..< W])[k := f k]
           = map (\<lambda>j. if j < Suc k then f j else g j) [0 ..< W]"
  using assms by (intro nth_equalityI) (auto simp: nth_list_update less_Suc_eq)

lemma map_upt_update_le:
  assumes "Suc k < W"
  shows "(map (\<lambda>j. if j \<le> k then f j else g j) [0 ..< W])[Suc k := f (Suc k)]
           = map (\<lambda>j. if j \<le> Suc k then f j else g j) [0 ..< W]"
  using assms by (intro nth_equalityI) (auto simp: nth_list_update le_Suc_eq)

text \<open>The inner loop, for any body that writes one cell of row \<open>i\<close>.\<close>

lemma boucle_interne:
  assumes pas: "\<And>t k. k < W \<Longrightarrow> length t = length table \<Longrightarrow> t ! (i - 1) = prec
                  \<Longrightarrow> length (t ! i) = W
                  \<Longrightarrow> body (int k) t = Some (t[i := (t ! i)[k := val k]])"
    and i: "0 < i" "i < length table"
    and prec: "table ! (i - 1) = prec"
    and len: "length (table ! i) = W"
    and k: "k \<le> W"
  shows "for_each (map int [0 ..< k]) body table
           = Some (table[i := map (\<lambda>j. if j < k then val j else table ! i ! j) [0 ..< W]])"
  using k
proof (induction k)
  case 0
  have "map (\<lambda>j. table ! i ! j) [0 ..< W] = table ! i"
    using map_nth [of "table ! i"] by (simp add: len)
  then show ?case by simp
next
  case (Suc k)
  let ?r = "map (\<lambda>j. if j < k then val j else table ! i ! j) [0 ..< W]"
  let ?t = "table[i := ?r]"
  have ih: "for_each (map int [0 ..< k]) body table = Some ?t"
    using Suc by simp
  have "body (int k) ?t = Some (?t[i := (?t ! i)[k := val k]])"
    using Suc.prems i prec by (intro pas) simp_all
  moreover have "?t ! i = ?r" using i by simp
  moreover have "?r[k := val k]
                   = map (\<lambda>j. if j < Suc k then val j else table ! i ! j) [0 ..< W]"
    using Suc.prems by (intro map_upt_update) simp
  ultimately have "body (int k) ?t
      = Some (table[i := map (\<lambda>j. if j < Suc k then val j else table ! i ! j) [0 ..< W]])"
    by simp
  then show ?case
    using for_each_snoc [OF ih, of "int k"] by simp
qed

lemma remplir_case_ok:
  assumes "0 < i" "i < length t" "length (t ! (i - 1)) = W" "length (t ! i) = W" "k < W"
    "0 \<le> c"
  shows "remplir_case (int i) c benefice (int k) t
           = Some (t[i := (t ! i)[k := valeur_case c benefice (t ! (i - 1)) k]])"
  using assms by (simp add: remplir_case_def idx_def upd_def valeur_case_def nat_diff_distrib')

lemma remplir_case_exclusion_ok:
  assumes "0 < i" "i < length t" "length (t ! (i - 1)) = W" "length (t ! i) = W" "k < W"
    "0 \<le> c"
  shows "remplir_case_exclusion (int i) c benefice (int k) t
           = Some (t[i := (t ! i)[k := valeur_case_exclusion c benefice (t ! (i - 1)) k]])"
  using assms
  by (simp add: remplir_case_exclusion_def idx_def upd_def valeur_case_exclusion_def
      nat_diff_distrib')


lemma length_ligne_table [simp]: "length (ligne_table acs W i) = W"
  by (cases i) simp_all

lemma length_ligne_table_exclusion [simp]: "length (ligne_table_exclusion acs W i) = W"
  by (cases i) simp_all

text \<open>The outer loop, for any body that writes row \<open>i\<close> from row \<open>i - 1\<close>.\<close>

lemma boucle_externe:
  assumes pas: "\<And>t i. i < n \<Longrightarrow> length t = Suc n \<Longrightarrow> t ! i = lignes i
                  \<Longrightarrow> length (t ! Suc i) = W
                  \<Longrightarrow> body (int (Suc i)) t = Some (t[Suc i := lignes (Suc i)])"
    and len: "\<And>i. length (lignes i) = W"
    and z: "lignes 0 = z"
    and k: "k \<le> n"
  shows "for_each (map (\<lambda>j. 1 + int j) [0 ..< k]) body (replicate (Suc n) z)
           = Some (map (\<lambda>j. if j \<le> k then lignes j else z) [0 ..< Suc n])"
  using k
proof (induction k)
  case 0
  have "replicate (Suc n) z = map (\<lambda>j. if j \<le> 0 then lignes j else z) [0 ..< Suc n]"
    by (rule nth_equalityI) (simp_all del: upt_Suc replicate_Suc add: z)
  then show ?case by simp
next
  case (Suc k)
  let ?t = "map (\<lambda>j. if j \<le> k then lignes j else z) [0 ..< Suc n]"
  have ih: "for_each (map (\<lambda>j. 1 + int j) [0 ..< k]) body (replicate (Suc n) z) = Some ?t"
    using Suc by simp
  have lz: "length z = W" using len [of 0] z by simp
  have tk: "?t ! k = lignes k" using Suc.prems by (simp del: upt_Suc)
  have tsk: "?t ! Suc k = z" using Suc.prems by (simp del: upt_Suc)
  have "body (int (Suc k)) ?t = Some (?t[Suc k := lignes (Suc k)])"
    using Suc.prems tk tsk lz by (intro pas) (simp_all del: upt_Suc)
  moreover have "?t[Suc k := lignes (Suc k)]
                   = map (\<lambda>j. if j \<le> Suc k then lignes j else z) [0 ..< Suc n]"
    using Suc.prems by (intro map_upt_update_le) simp
  ultimately have "body (1 + int k) ?t
      = Some (map (\<lambda>j. if j \<le> Suc k then lignes j else z) [0 ..< Suc n])"
    by (simp add: add.commute)
  then show ?case
    using for_each_snoc [OF ih, of "1 + int k"] by (simp del: upt_Suc add: upt_Suc_append)
qed

lemma remplir_ligne_ok:
  assumes i: "i < length acs" "Suc i < length t"
    and lens: "length (t ! i) = nat (B + 1)" "length (t ! Suc i) = nat (B + 1)"
    and c: "0 \<le> cout_centimes (acs ! i)"
  shows "remplir_ligne acs B (int (Suc i)) t
           = Some (t[Suc i := map (valeur_case (cout_centimes (acs ! i))
                                     (benefice_centimes (acs ! i)) (t ! i))
                                [0 ..< nat (B + 1)]])"
proof -
  let ?c = "cout_centimes (acs ! i)" and ?be = "benefice_centimes (acs ! i)"
  have "for_each (map int [0 ..< nat (B + 1)]) (remplir_case (int (Suc i)) ?c ?be) t
          = Some (t[Suc i := map (\<lambda>j. if j < nat (B + 1) then valeur_case ?c ?be (t ! i) j
                                       else t ! Suc i ! j) [0 ..< nat (B + 1)]])"
  proof (rule boucle_interne [where prec = "t ! i"])
    fix t' k
    assume "k < nat (B + 1)" "length t' = length t" "t' ! (Suc i - 1) = t ! i"
      "length (t' ! Suc i) = nat (B + 1)"
    then show "remplir_case (int (Suc i)) ?c ?be (int k) t'
                 = Some (t'[Suc i := (t' ! Suc i)[k := valeur_case ?c ?be (t ! i) k]])"
      using remplir_case_ok [of "Suc i" t' "nat (B + 1)" k ?c ?be] i lens c by simp
  qed (use i lens in simp_all)
  moreover have "map (\<lambda>j. if j < nat (B + 1) then valeur_case ?c ?be (t ! i) j
                           else t ! Suc i ! j) [0 ..< nat (B + 1)]
                   = map (valeur_case ?c ?be (t ! i)) [0 ..< nat (B + 1)]"
    by simp
  ultimately show ?thesis
    using i by (simp add: remplir_ligne_def idx_def py_range_0)
qed

lemma py_range_1: "py_range 1 (int n + 1) = map (\<lambda>j. 1 + int j) [0 ..< n]"
  by (simp add: py_range_def)

lemma creer_table_dynamique_eq:
  assumes c: "\<forall>a \<in> set acs. 0 \<le> cout_centimes a"
  shows "creer_table_dynamique acs B
           = Some (map (ligne_table acs (nat (B + 1))) [0 ..< Suc (length acs)])"
proof -
  let ?n = "length acs" and ?W = "nat (B + 1)"
  have "for_each (map (\<lambda>j. 1 + int j) [0 ..< ?n]) (remplir_ligne acs B)
          (replicate (Suc ?n) (replicate ?W 0))
        = Some (map (\<lambda>j. if j \<le> ?n then ligne_table acs ?W j else replicate ?W 0)
                  [0 ..< Suc ?n])"
  proof (rule boucle_externe [where W = ?W])
    fix t i
    assume "i < ?n" "length t = Suc ?n" "t ! i = ligne_table acs ?W i"
      "length (t ! Suc i) = ?W"
    then show "remplir_ligne acs B (int (Suc i)) t
                 = Some (t[Suc i := ligne_table acs ?W (Suc i)])"
      using remplir_ligne_ok [of i acs t B] c by simp
  qed simp_all
  moreover have "map (\<lambda>j. if j \<le> ?n then ligne_table acs ?W j else replicate ?W 0)
                   [0 ..< Suc ?n] = map (ligne_table acs ?W) [0 ..< Suc ?n]"
    by (intro map_cong) auto
  ultimately show ?thesis
    by (simp add: creer_table_dynamique_def Let_def py_range_1 nat_add_distrib del: upt_Suc)
qed

lemma creer_table_exclusion_eq:
  assumes c: "\<forall>a \<in> set acs. 0 \<le> cout_centimes a"
  shows "creer_table_exclusion acs B
           = Some (map (ligne_table_exclusion acs (nat (B + 1))) [0 ..< Suc (length acs)])"
proof -
  let ?n = "length acs" and ?W = "nat (B + 1)"
  let ?body = "\<lambda>i table.
              do {
                action \<leftarrow> idx acs (i - 1);
                for_each (py_range 0 (B + 1))
                  (remplir_case_exclusion i (cout_centimes action) (benefice_centimes action))
                  table
              }"
  have "for_each (map (\<lambda>j. 1 + int j) [0 ..< ?n]) ?body
          (replicate (Suc ?n) (replicate ?W 0))
        = Some (map (\<lambda>j. if j \<le> ?n then ligne_table_exclusion acs ?W j else replicate ?W 0)
                  [0 ..< Suc ?n])"
  proof (rule boucle_externe [where W = ?W])
    fix t i
    assume h: "i < ?n" "length t = Suc ?n" "t ! i = ligne_table_exclusion acs ?W i"
      "length (t ! Suc i) = ?W"
    let ?c = "cout_centimes (acs ! i)" and ?be = "benefice_centimes (acs ! i)"
    have "for_each (map int [0 ..< ?W]) (remplir_case_exclusion (int (Suc i)) ?c ?be) t
          = Some (t[Suc i := map (\<lambda>j. if j < ?W then valeur_case_exclusion ?c ?be (t ! i) j
                                       else t ! Suc i ! j) [0 ..< ?W]])"
    proof (rule boucle_interne [where prec = "t ! i"])
      fix t' k
      assume "k < ?W" "length t' = length t" "t' ! (Suc i - 1) = t ! i"
        "length (t' ! Suc i) = ?W"
      then show "remplir_case_exclusion (int (Suc i)) ?c ?be (int k) t'
                 = Some (t'[Suc i := (t' ! Suc i)[k := valeur_case_exclusion ?c ?be (t ! i) k]])"
        using remplir_case_exclusion_ok [of "Suc i" t' ?W k ?c ?be] h c by simp
    qed (use h in simp_all)
    moreover have "map (\<lambda>j. if j < ?W then valeur_case_exclusion ?c ?be (t ! i) j
                           else t ! Suc i ! j) [0 ..< ?W]
                   = map (valeur_case_exclusion ?c ?be (t ! i)) [0 ..< ?W]"
      by simp
    ultimately show "?body (int (Suc i)) t
                 = Some (t[Suc i := ligne_table_exclusion acs ?W (Suc i)])"
      using h by (simp add: idx_def py_range_0)
  qed simp_all
  moreover have "map (\<lambda>j. if j \<le> ?n then ligne_table_exclusion acs ?W j else replicate ?W 0)
                   [0 ..< Suc ?n] = map (ligne_table_exclusion acs ?W) [0 ..< Suc ?n]"
    by (intro map_cong) auto
  ultimately show ?thesis
    by (simp add: creer_table_exclusion_def Let_def py_range_1 nat_add_distrib del: upt_Suc)
qed

lemma ligne_table_positive:
  assumes "\<forall>a \<in> set acs. 0 \<le> benefice_centimes a" "i \<le> length acs" "k < W"
  shows "0 \<le> ligne_table acs W i ! k"
  using assms(2,3)
proof (induction i arbitrary: k)
  case 0
  then show ?case by simp
next
  case (Suc i)
  then have "0 \<le> ligne_table acs W i ! k" by simp
  then show ?case using Suc.prems by (simp add: valeur_case_def)
qed

lemma ligne_table_infaisable:
  assumes "\<forall>a \<in> set acs. 0 \<le> benefice_centimes a" "i < length acs" "k < W"
    "int k < cout_centimes (acs ! i)"
  shows "ligne_table acs W (Suc i) ! k = ligne_table acs W i ! k"
  using assms ligne_table_positive [of acs i k W] by (simp add: valeur_case_def)

lemma ligne_table_exclusion_eq:
  assumes "\<forall>a \<in> set acs. 0 \<le> benefice_centimes a" "i \<le> length acs"
  shows "ligne_table_exclusion acs W i = ligne_table acs W i"
  using assms(2)
proof (induction i)
  case 0
  then show ?case by simp
next
  case (Suc i)
  have "valeur_case_exclusion c be (ligne_table acs W i) k
          = valeur_case c be (ligne_table acs W i) k" if "k < W" for c be k
    using ligne_table_positive [OF assms(1), of i k W] Suc.prems that
    by (simp add: valeur_case_def valeur_case_exclusion_def)
  then show ?case using Suc by simp
qed

lemma convertir_valides:
  assumes "\<forall>a \<in> set acts. benefice_euros a \<noteq> None"
  shows "convertir_actions_en_centimes acts = Some (map en_centimes acts)"
  using assms by (induction acts) (auto simp: en_centimes_def)

lemma py_int_positif: "0 \<le> x \<Longrightarrow> 0 \<le> py_int x"
  by (simp add: py_int_def)


section \<open>The backward walk\<close>

lemma nth_table [simp]:
  "i \<le> n \<Longrightarrow> map (ligne_table acs W) [0 ..< Suc n] ! i = ligne_table acs W i"
  using nth_map_upt [of i "Suc n" 0 "ligne_table acs W"] by simp

lemma nat_un_plus: "nat (1 + int i) = Suc i"
  by simp

lemma remonter_ok:
  assumes pos: "\<forall>a \<in> set acts. 0 \<le> py_int (cout a * 100)
                               \<and> 0 \<le> py_int (the (benefice_euros a) * 100)"
    and i: "i \<le> length acts" and b: "b \<le> B"
  shows "\<exists>extra. remonter acts (map en_centimes acts)
                   (map (ligne_table (map en_centimes acts) (nat (B + 1)))
                      [0 ..< Suc (length acts)]) i b sel = Some (sel @ extra)
               \<and> sum_list (map (\<lambda>a. py_int (cout a * 100)) extra) \<le> max 0 b
               \<and> subseq (rev extra) (take i acts)"
  using i b
proof (induction i arbitrary: b sel)
  case 0
  then show ?case by simp
next
  case (Suc i)
  let ?acs = "map en_centimes acts" and ?W = "nat (B + 1)"
  let ?T = "map (ligne_table ?acs ?W) [0 ..< Suc (length acts)]"
  show ?case
  proof (cases "0 < b")
    case False
    then show ?thesis by simp
  next
    case True
    then have kW: "nat b < ?W" using Suc.prems by simp
    have i: "i < length acts" using Suc.prems by simp
    have posc: "\<forall>a \<in> set ?acs. 0 \<le> benefice_centimes a"
      using pos by (simp add: en_centimes_def)
    let ?v = "ligne_table ?acs ?W (Suc i) ! nat b" and ?vp = "ligne_table ?acs ?W i ! nat b"
    let ?c = "py_int (cout (acts ! i) * 100)"
    have cc: "cout_centimes (?acs ! i) = ?c" using i by (simp add: en_centimes_def)
    have step: "remonter acts ?acs ?T (Suc i) b sel =
        (if ?v \<noteq> ?vp then remonter acts ?acs ?T i (b - ?c) (sel @ [acts ! i])
         else remonter acts ?acs ?T i b sel)"
      using True kW i Suc.prems
      by (simp add: idx_def en_centimes_def nat_un_plus del: upt_Suc ligne_table.simps)
    show ?thesis
    proof (cases "?v = ?vp")
      case True
      obtain extra where e: "remonter acts ?acs ?T i b sel = Some (sel @ extra)"
        "sum_list (map (\<lambda>a. py_int (cout a * 100)) extra) \<le> max 0 b"
        "subseq (rev extra) (take i acts)"
        using Suc.IH [of b sel] Suc.prems by auto
      have "subseq (rev extra) (take (Suc i) acts)"
        using e(3) i by (simp add: take_Suc_conv_app_nth subseq_rev_drop_many)
      then show ?thesis using step True e by auto
    next
      case False
      have cb: "?c \<le> b"
      proof (rule ccontr)
        assume "\<not> ?c \<le> b"
        then have "int (nat b) < cout_centimes (?acs ! i)" using cc \<open>0 < b\<close> by simp
        then have "?v = ?vp"
          using ligne_table_infaisable [OF posc, of i "nat b" ?W] i kW by simp
        then show False using False by simp
      qed
      have c0: "0 \<le> ?c" using pos i by simp
      obtain extra where e:
        "remonter acts ?acs ?T i (b - ?c) (sel @ [acts ! i]) = Some ((sel @ [acts ! i]) @ extra)"
        "sum_list (map (\<lambda>a. py_int (cout a * 100)) extra) \<le> max 0 (b - ?c)"
        "subseq (rev extra) (take i acts)"
        using Suc.IH [of "b - ?c" "sel @ [acts ! i]"] Suc.prems c0 by auto
      have "subseq (rev (acts ! i # extra)) (take (Suc i) acts)"
        using e(3) i by (simp add: take_Suc_conv_app_nth list_emb_append_mono)
      moreover have "sum_list (map (\<lambda>a. py_int (cout a * 100)) (acts ! i # extra)) \<le> max 0 b"
        using e(2) cb by simp
      ultimately show ?thesis
        using step False e(1) by (intro exI [of _ "acts ! i # extra"]) simp
    qed
  qed
qed

section \<open>The dynamic-programming optimizer on valid actions\<close>

lemma subseq_ensemble: "subseq xs ys \<Longrightarrow> set xs \<subseteq> set ys"
  by (induction rule: list_emb.induct) auto

lemma valides_positifs:
  assumes "action_valide a" "benefice_derive a"
  shows "benefice_euros a \<noteq> None" "0 \<le> py_int (cout a * 100)"
    "0 \<le> py_int (the (benefice_euros a) * 100)"
  using assms by (simp_all add: action_valide_def benefice_derive_def py_int_def)

lemma lire_benefices_valides:
  assumes "\<forall>a \<in> set sel. benefice_derive a"
  shows "lire_benefices sel = Some (map (\<lambda>a. cout a * benefice_pct a / 100) sel)"
  using assms by (induction sel) (auto simp: benefice_derive_def)

lemma calculer_solution_valides:
  assumes "\<forall>a \<in> set sel. benefice_derive a"
  shows "calculer_solution sel = Some (calculer_solution_optimized sel)"
  using lire_benefices_valides [OF assms]
  by (simp add: calculer_solution_def calculer_solution_optimized_def)

lemma algorithme_dynamique_eq: "algorithme_dynamique acts budget_max = algorithme_sac_a_dos acts budget_max"
  by (simp add: algorithme_dynamique_def algorithme_sac_a_dos_def creer_table_dynamique_def
      retrouver_actions_def Let_def split: Option.bind_splits)

lemma algorithme_sac_a_dos_ok:
  assumes v: "\<forall>a \<in> set acts. action_valide a \<and> benefice_derive a"
  shows "\<exists>sel. algorithme_sac_a_dos acts budget_max = Some (calculer_solution_optimized sel)
             \<and> subseq sel acts
             \<and> sum_list (map (\<lambda>a. py_int (cout a * 100)) sel) \<le> max 0 (py_int (budget_max * 100))"
proof -
  let ?B = "py_int (budget_max * 100)" and ?acs = "map en_centimes acts"
  let ?T = "map (ligne_table ?acs (nat (?B + 1))) [0 ..< Suc (length acts)]"
  have conv: "convertir_actions_en_centimes acts = Some ?acs"
    using v by (intro convertir_valides) (simp add: valides_positifs)
  have "\<forall>a \<in> set ?acs. 0 \<le> cout_centimes a"
    using v by (simp add: en_centimes_def valides_positifs)
  then have tab: "creer_table_dynamique ?acs ?B = Some ?T"
    using creer_table_dynamique_eq [of ?acs ?B] by simp
  have "\<forall>a \<in> set acts. 0 \<le> py_int (cout a * 100)
                        \<and> 0 \<le> py_int (the (benefice_euros a) * 100)"
    using v by (simp add: valides_positifs)
  from remonter_ok [OF this, of "length acts" ?B ?B "[]"]
  obtain extra where e: "remonter acts ?acs ?T (length acts) ?B [] = Some extra"
    "sum_list (map (\<lambda>a. py_int (cout a * 100)) extra) \<le> max 0 ?B"
    "subseq (rev extra) acts"
    by auto
  have sub: "set (rev extra) \<subseteq> set acts" using e(3) by (rule subseq_ensemble)
  then have "\<forall>a \<in> set (rev extra). benefice_derive a" using v by auto
  then have cs: "calculer_solution (rev extra) = Some (calculer_solution_optimized (rev extra))"
    by (rule calculer_solution_valides)
  have "sum_list (map (\<lambda>a. py_int (cout a * 100)) (rev extra)) \<le> max 0 ?B"
    using e(2) by (simp add: rev_map [symmetric])
  moreover have "algorithme_sac_a_dos acts budget_max
                   = Some (calculer_solution_optimized (rev extra))"
    using conv tab e(1) cs by (simp add: algorithme_sac_a_dos_def retrouver_actions_def)
  ultimately show ?thesis using e(3) by blast
qed


text \<open>
  Claim C6. For valid actions the table built by \<^verbatim>\<open>creer_table_dynamique\<close>, which takes
  the value 0 for an inclusion that does not fit, is the table of the recurrence that
  considers exclusion only in that case. Wherever the scaled cost of action \<open>i\<close> exceeds
  the budget level \<open>k\<close>, the entry equals the entry of the row above, and every entry of
  the table is non-negative.
\<close>

theorem creer_table_dynamique_exclusion:
  assumes v: "\<forall>a \<in> set acts. action_valide a \<and> benefice_derive a"
  shows "\<exists>acs table.
           convertir_actions_en_centimes acts = Some acs
         \<and> creer_table_dynamique acs B = Some table
         \<and> creer_table_exclusion acs B = Some table
         \<and> (\<forall>i k. i < length acs \<and> int k \<le> B \<and> int k < cout_centimes (acs ! i)
                  \<longrightarrow> table ! Suc i ! k = table ! i ! k)
         \<and> (\<forall>i k. i \<le> length acs \<and> int k \<le> B \<longrightarrow> 0 \<le> table ! i ! k)"
proof -
  let ?acs = "map en_centimes acts" and ?W = "nat (B + 1)"
  let ?T = "map (ligne_table ?acs ?W) [0 ..< Suc (length ?acs)]"
  have conv: "convertir_actions_en_centimes acts = Some ?acs"
    using v by (intro convertir_valides) (simp add: valides_positifs)
  have c: "\<forall>a \<in> set ?acs. 0 \<le> cout_centimes a"
    using v by (simp add: en_centimes_def valides_positifs)
  have be: "\<forall>a \<in> set ?acs. 0 \<le> benefice_centimes a"
    using v by (simp add: en_centimes_def valides_positifs)
  have tab: "creer_table_dynamique ?acs B = Some ?T"
    using creer_table_dynamique_eq [OF c] .
  have "map (ligne_table_exclusion ?acs ?W) [0 ..< Suc (length ?acs)] = ?T"
    using ligne_table_exclusion_eq [OF be] by (intro map_cong) auto
  then have excl: "creer_table_exclusion ?acs B = Some ?T"
    using creer_table_exclusion_eq [OF c, of B] by simp
  have inf: "?T ! Suc i ! k = ?T ! i ! k"
    if "i < length ?acs" "int k \<le> B" "int k < cout_centimes (?acs ! i)" for i k
  proof -
    have "k < ?W" using that(2) by simp
    then have "ligne_table ?acs ?W (Suc i) ! k = ligne_table ?acs ?W i ! k"
      using ligne_table_infaisable [OF be that(1) _ that(3)] by simp
    moreover have "?T ! Suc i = ligne_table ?acs ?W (Suc i)" "?T ! i = ligne_table ?acs ?W i"
      using that(1) nth_table [of "Suc i" "length ?acs"] nth_table [of i "length ?acs"] by simp_all
    ultimately show ?thesis by simp
  qed
  have pos: "0 \<le> ?T ! i ! k" if "i \<le> length ?acs" "int k \<le> B" for i k
  proof -
    have "k < ?W" using that(2) by simp
    then have "0 \<le> ligne_table ?acs ?W i ! k"
      using ligne_table_positive [OF be that(1)] by simp
    moreover have "?T ! i = ligne_table ?acs ?W i"
      using that(1) nth_table [of i "length ?acs"] by simp
    ultimately show ?thesis by simp
  qed
  show ?thesis
    using conv tab excl inf pos by blast
qed

theorem creer_table_dynamique_exclusion_witness:
  "action_valide exemple_a \<and> benefice_derive exemple_a
   \<and> action_valide exemple_c \<and> benefice_derive exemple_c
   \<and> convertir_actions_en_centimes [exemple_a, exemple_c]
       = Some [en_centimes exemple_a, en_centimes exemple_c]
   \<and> creer_table_dynamique [en_centimes exemple_a, en_centimes exemple_c] 11
       = creer_table_exclusion [en_centimes exemple_a, en_centimes exemple_c] 11
   \<and> creer_table_dynamique [en_centimes exemple_a, en_centimes exemple_c] 11
       = Some [[0, 0, 0, 0, 0, 0, 0, 0, 0, 0, 0, 0],
               [0, 0, 0, 0, 0, 0, 0, 0, 0, 0, 1, 1],
               [0, 0, 0, 0, 0, 0, 0, 0, 0, 0, 1, 1]]"
proof -
  have h: "\<forall>a \<in> set [exemple_a, exemple_c]. action_valide a \<and> benefice_derive a"
    by (simp add: action_valide_def benefice_derive_def exemple_a_def exemple_c_def)
  have conv: "convertir_actions_en_centimes [exemple_a, exemple_c]
                = Some [en_centimes exemple_a, en_centimes exemple_c]"
    by (simp add: exemple_a_def exemple_c_def en_centimes_def)
  have val: "creer_table_dynamique [en_centimes exemple_a, en_centimes exemple_c] 11
       = Some [[0, 0, 0, 0, 0, 0, 0, 0, 0, 0, 0, 0],
               [0, 0, 0, 0, 0, 0, 0, 0, 0, 0, 1, 1],
               [0, 0, 0, 0, 0, 0, 0, 0, 0, 0, 1, 1]]"
    by code_simp
  show ?thesis
    using creer_table_dynamique_exclusion [OF h, of 11] h conv val by auto
qed

text \<open>
  Claim C10. On valid actions and any budget the dynamic-programming optimizer returns a
  solution: no read or write of the table, of the scaled actions or of the actions leaves
  the range \<open>0 .. len - 1\<close>. The backward walk never takes the budget level below
  zero: the scaled costs of the actions it selects add up to at most the scaled budget
  (to 0 for a negative budget). The selected actions are a subsequence of the input.
\<close>

theorem algorithme_sac_a_dos_indices:
  assumes "\<forall>a \<in> set acts. action_valide a \<and> benefice_derive a"
  shows "\<exists>sol. algorithme_sac_a_dos acts budget_max = Some sol
             \<and> subseq (actions sol) acts
             \<and> sum_list (map (\<lambda>a. py_int (cout a * 100)) (actions sol))
                 \<le> max 0 (py_int (budget_max * 100))"
  using algorithme_sac_a_dos_ok [OF assms, of budget_max]
  by (auto simp: calculer_solution_optimized_def)

theorem algorithme_sac_a_dos_indices_witness:
  "action_valide exemple_a \<and> benefice_derive exemple_a
   \<and> action_valide exemple_c \<and> benefice_derive exemple_c
   \<and> (\<exists>sol. algorithme_sac_a_dos [exemple_a, exemple_c] (11 / 100) = Some sol
           \<and> subseq (actions sol) [exemple_a, exemple_c]
           \<and> sum_list (map (\<lambda>a. py_int (cout a * 100)) (actions sol))
                 \<le> max 0 (py_int (11 / 100 * 100)))"
proof -
  have h: "\<forall>a \<in> set [exemple_a, exemple_c]. action_valide a \<and> benefice_derive a"
    by (simp add: action_valide_def benefice_derive_def exemple_a_def exemple_c_def)
  show ?thesis
    using algorithme_sac_a_dos_indices [OF h, of "11 / 100"] h by simp
qed

section \<open>The exhaustive optimizer\<close>

lemma calculer_benefice_total_foldl:
  "foldl (\<lambda>(ct, bt) a. (ct + cout a, bt + cout a * benefice_pct a / 100)) (c0, b0) sel
     = (c0 + cout_de sel, b0 + benefice_de sel)"
  by (induction sel arbitrary: c0 b0) (simp_all add: cout_de_def benefice_de_def algebra_simps)

lemma calculer_benefice_total_eq:
  "calculer_benefice_total sel = (cout_de sel, benefice_de sel)"
  using calculer_benefice_total_foldl [of 0 0 sel] by (simp add: calculer_benefice_total_def)

lemma garder_meilleure_eq:
  "garder_meilleure budget_max m c =
     (if cout_de c \<le> budget_max \<and> benefice_total m < benefice_de c
      then \<lparr>actions = c, cout_total = cout_de c, benefice_total = benefice_de c\<rparr> else m)"
  by (simp add: garder_meilleure_def calculer_benefice_total_eq)

lemma foldl_concat_imbrique: "foldl f a (concat xss) = foldl (foldl f) a xss"
  by (induction xss arbitrary: a) simp_all

lemma trouver_meilleure_combinaison_candidats:
  "trouver_meilleure_combinaison acts budget_max
     = foldl (garder_meilleure budget_max) vide (candidats acts)"
  by (simp add: trouver_meilleure_combinaison_def candidats_def vide_def foldl_concat_imbrique
      foldl_map)

lemma set_combinations:
  "set (combinations xs k) = {ys. subseq ys xs \<and> length ys = k}"
proof (induction xs k rule: combinations.induct)
  case (1 xs)
  then show ?case by auto
next
  case (2 k)
  then show ?case by auto
next
  case (3 x xs k)
  have "subseq ys (x # xs) \<and> length ys = Suc k \<longleftrightarrow>
          (\<exists>zs. ys = x # zs \<and> subseq zs xs \<and> length zs = k)
          \<or> (subseq ys xs \<and> length ys = Suc k)" for ys
  proof (cases ys)
    case Nil
    then show ?thesis by simp
  next
    case (Cons y zs)
    then show ?thesis by (cases "y = x") (auto simp: subseq_Cons')
  qed
  then show ?case using 3 by auto
qed

lemma set_candidats: "set (candidats acts) = {ys. subseq ys acts \<and> ys \<noteq> []}"
proof -
  have "ys \<noteq> [] \<longleftrightarrow> 1 \<le> length ys \<and> length ys < length acts + 1" if "subseq ys acts" for ys
    using list_emb_length [OF that] by (cases ys) auto
  then show ?thesis
    by (auto simp: candidats_def set_combinations)
qed




section \<open>A budget that is zero or negative\<close>

lemma garder_meilleure_trop_chers:
  assumes "\<forall>c \<in> set cs. \<not> cout_de c \<le> budget_max"
  shows "foldl (garder_meilleure budget_max) m cs = m"
  using assms by (induction cs arbitrary: m) (simp_all add: garder_meilleure_eq)

lemma cout_de_positif:
  assumes "\<forall>a \<in> set c. 0 < cout a" "c \<noteq> []"
  shows "0 < cout_de c"
  using assms
proof (induction c)
  case Nil
  then show ?case by simp
next
  case (Cons a c)
  then show ?case
    by (cases c) (simp_all add: cout_de_def add_pos_pos)
qed

lemma trouver_budget_non_positif:
  assumes "\<forall>a \<in> set acts. action_valide a" "budget_max \<le> 0"
  shows "trouver_meilleure_combinaison acts budget_max = vide"
proof -
  have "\<not> cout_de c \<le> budget_max" if "c \<in> set (candidats acts)" for c
  proof -
    have "subseq c acts" "c \<noteq> []" using that by (simp_all add: set_candidats)
    then have "\<forall>a \<in> set c. 0 < cout a"
      using assms(1) subseq_ensemble [of c acts] by (auto simp: action_valide_def)
    then have "0 < cout_de c" using \<open>c \<noteq> []\<close> by (rule cout_de_positif)
    then show ?thesis using assms(2) by simp
  qed
  then show ?thesis
    by (simp add: trouver_meilleure_combinaison_candidats garder_meilleure_trop_chers)
qed

lemma selectionner_rien:
  assumes "\<forall>a \<in> set xs. \<not> cout a \<le> b"
  shows "selectionner xs b sel = sel"
  using assms by (induction xs arbitrary: sel) simp_all

lemma set_sorted_reverse [simp]: "set (sorted_reverse k xs) = set xs"
  by (simp add: sorted_reverse_def)

lemma glouton_budget_non_positif:
  assumes "\<forall>a \<in> set acts. action_valide a" "\<forall>a \<in> set acts. ratio a \<noteq> None" "budget_max \<le> 0"
  shows "algorithme_glouton acts budget_max = Some vide"
proof -
  have "\<forall>a \<in> set (sorted_reverse (\<lambda>a. the (ratio a)) acts). \<not> cout a \<le> budget_max"
    using assms(1,3) by (auto simp: action_valide_def)
  then show ?thesis
    using assms(2)
    by (simp add: algorithme_glouton_def selectionner_rien calculer_solution_optimized_def
        vide_def list_all_iff)
qed

lemma calculer_ratios_eq:
  assumes "\<forall>a \<in> set acts. cout a \<noteq> 0"
  shows "calculer_ratios acts
           = (map (\<lambda>a. a\<lparr>ratio := Some (benefice_pct a / cout a)\<rparr>) acts, True)"
  using assms by (induction acts) simp_all

lemma glouton_analyse_budget_non_positif:
  assumes "\<forall>a \<in> set acts. action_valide a" "budget_max \<le> 0"
  shows "snd (algorithme_glouton_analyse acts budget_max) = Some vide"
proof -
  let ?acts' = "map (\<lambda>a. a\<lparr>ratio := Some (benefice_pct a / cout a)\<rparr>) acts"
  have r: "calculer_ratios acts = (?acts', True)"
    using assms(1) by (intro calculer_ratios_eq) (auto simp: action_valide_def)
  have "\<forall>a \<in> set (sorted_reverse (\<lambda>a. the (ratio a)) ?acts'). \<not> cout a \<le> budget_max"
    using assms by (auto simp: action_valide_def)
  then show ?thesis
    by (simp add: algorithme_glouton_analyse_def r selectionner_rien calculer_solution_def
        vide_def)
qed

lemma remonter_budget_non_positif: "b \<le> 0 \<Longrightarrow> remonter acts acs table i b sel = Some sel"
  by (cases i) simp_all

lemma py_int_non_positif: "x \<le> 0 \<Longrightarrow> py_int x \<le> 0"
  by (auto simp: py_int_def ceiling_le_zero)

lemma sac_a_dos_budget_non_positif:
  assumes "\<forall>a \<in> set acts. action_valide a" "\<forall>a \<in> set acts. benefice_euros a \<noteq> None"
    "budget_max \<le> 0"
  shows "algorithme_sac_a_dos acts budget_max = Some vide"
proof -
  let ?B = "py_int (budget_max * 100)" and ?acs = "map en_centimes acts"
  have conv: "convertir_actions_en_centimes acts = Some ?acs"
    using assms(2) by (rule convertir_valides)
  have "\<forall>a \<in> set ?acs. 0 \<le> cout_centimes a"
    using assms(1) by (auto simp: en_centimes_def action_valide_def intro!: py_int_positif)
  then obtain T where tab: "creer_table_dynamique ?acs ?B = Some T"
    using creer_table_dynamique_eq [of ?acs ?B] by simp
  have "?B \<le> 0" using assms(3) by (intro py_int_non_positif) (simp add: mult_le_0_iff)
  then have "retrouver_actions acts ?acs T ?B = Some []"
    by (simp add: retrouver_actions_def remonter_budget_non_positif)
  then show ?thesis
    using conv tab by (simp add: algorithme_sac_a_dos_def calculer_solution_def vide_def)
qed

text \<open>
  Claim C8. With budget 0 and valid actions every optimizer returns the empty selection
  with \<^verbatim>\<open>cout_total = 0\<close> and \<^verbatim>\<open>benefice_total = 0\<close>: the exhaustive optimizer, the
  greedy optimizer of \<^verbatim>\<open>optimized.py\<close> (which needs the key \<^verbatim>\<open>ratio\<close>), the greedy
  optimizer of \<^verbatim>\<open>analyse_datasets.py\<close>, and the two dynamic-programming optimizers (which
  need the key \<^verbatim>\<open>benefice_euros\<close>).
\<close>

theorem budget_zero_selection_vide:
  assumes "\<forall>a \<in> set acts. action_valide a"
  shows "trouver_meilleure_combinaison acts 0 = vide
       \<and> ((\<forall>a \<in> set acts. ratio a \<noteq> None) \<longrightarrow> algorithme_glouton acts 0 = Some vide)
       \<and> snd (algorithme_glouton_analyse acts 0) = Some vide
       \<and> ((\<forall>a \<in> set acts. benefice_euros a \<noteq> None)
            \<longrightarrow> algorithme_sac_a_dos acts 0 = Some vide
              \<and> algorithme_dynamique acts 0 = Some vide)"
  using assms
  by (simp add: trouver_budget_non_positif glouton_budget_non_positif
      glouton_analyse_budget_non_positif sac_a_dos_budget_non_positif algorithme_dynamique_eq)

theorem budget_zero_selection_vide_witness:
  "action_valide exemple_e \<and> ratio exemple_e \<noteq> None \<and> benefice_euros exemple_e \<noteq> None
   \<and> trouver_meilleure_combinaison [exemple_e] 0 = vide
   \<and> algorithme_glouton [exemple_e] 0 = Some vide
   \<and> snd (algorithme_glouton_analyse [exemple_e] 0) = Some vide
   \<and> algorithme_sac_a_dos [exemple_e] 0 = Some vide
   \<and> algorithme_dynamique [exemple_e] 0 = Some vide"
proof -
  have h: "\<forall>a \<in> set [exemple_e]. action_valide a"
    by (simp add: action_valide_def exemple_e_def)
  have k: "ratio exemple_e \<noteq> None" "benefice_euros exemple_e \<noteq> None"
    by (simp_all add: exemple_e_def)
  show ?thesis
    using budget_zero_selection_vide [OF h] h k by simp
qed

text \<open>
  Claim C9 says that a budget that is zero or negative makes an optimizer fail. No
  optimizer tests its budget or raises: on the budgets \<open>- 1\<close> and \<open>0\<close> each of them
  returns a solution, the empty one.
\<close>

theorem budget_negatif_sans_echec:
  "trouver_meilleure_combinaison [exemple_e] (- 1) = vide
   \<and> algorithme_glouton [exemple_e] (- 1) = Some vide
   \<and> algorithme_glouton_analyse [exemple_e] (- 1) = ([exemple_e], Some vide)
   \<and> algorithme_sac_a_dos [exemple_e] (- 1) = Some vide
   \<and> algorithme_dynamique [exemple_e] (- 1) = Some vide
   \<and> algorithme_sac_a_dos [exemple_e] 0 \<noteq> None"
  by code_simp

text \<open>
  Claim C9, amended. For every budget that is zero or negative and valid actions, each
  optimizer returns the empty selection with both totals 0 and raises nothing.
\<close>

theorem budget_non_positif_selection_vide:
  assumes "\<forall>a \<in> set acts. action_valide a" "budget_max \<le> 0"
  shows "trouver_meilleure_combinaison acts budget_max = vide
       \<and> ((\<forall>a \<in> set acts. ratio a \<noteq> None)
            \<longrightarrow> algorithme_glouton acts budget_max = Some vide)
       \<and> snd (algorithme_glouton_analyse acts budget_max) = Some vide
       \<and> ((\<forall>a \<in> set acts. benefice_euros a \<noteq> None)
            \<longrightarrow> algorithme_sac_a_dos acts budget_max = Some vide
              \<and> algorithme_dynamique acts budget_max = Some vide)"
  using assms
  by (simp add: trouver_budget_non_positif glouton_budget_non_positif
      glouton_analyse_budget_non_positif sac_a_dos_budget_non_positif algorithme_dynamique_eq)

theorem budget_non_positif_selection_vide_witness:
  "action_valide exemple_e \<and> ratio exemple_e \<noteq> None \<and> benefice_euros exemple_e \<noteq> None
   \<and> (- 5 :: rat) \<le> 0
   \<and> trouver_meilleure_combinaison [exemple_e] (- 5) = vide
   \<and> algorithme_glouton [exemple_e] (- 5) = Some vide
   \<and> snd (algorithme_glouton_analyse [exemple_e] (- 5)) = Some vide
   \<and> algorithme_sac_a_dos [exemple_e] (- 5) = Some vide
   \<and> algorithme_dynamique [exemple_e] (- 5) = Some vide"
proof -
  have h: "\<forall>a \<in> set [exemple_e]. action_valide a"
    by (simp add: action_valide_def exemple_e_def)
  have k: "ratio exemple_e \<noteq> None" "benefice_euros exemple_e \<noteq> None"
    by (simp_all add: exemple_e_def)
  have b: "(- 5 :: rat) \<le> 0" by simp
  show ?thesis
    using budget_non_positif_selection_vide [OF h b] h k by simp
qed

section \<open>What the table maximises\<close>

text \<open>In centimes the dynamic-programming optimizer is exact: when every scaled cost is at
  least one centime, the selection it returns has the greatest scaled profit among the
  subsequences of the input whose scaled cost is within the scaled budget.\<close>

lemma cout_centimes_de_positif:
  "\<forall>a \<in> set ys. 0 \<le> py_int (cout a * 100) \<Longrightarrow> 0 \<le> cout_centimes_de ys"
  by (auto simp: cout_centimes_de_def intro!: sum_list_nonneg)

lemma subseq_snoc_cases:
  assumes "subseq ys (xs @ [x])"
  shows "subseq ys xs \<or> (\<exists>zs. ys = zs @ [x] \<and> subseq zs xs)"
proof -
  from assms obtain ys1 ys2 where y: "ys = ys1 @ ys2" "subseq ys1 xs" "subseq ys2 [x]"
    by (auto simp: subseq_append_iff)
  from y(3) have "ys2 = [] \<or> ys2 = [x]"
    by (cases ys2) (auto simp: subseq_Cons2_iff split: if_splits)
  then show ?thesis using y by auto
qed

lemma table_majore:
  assumes pos: "\<forall>a \<in> set acts. 0 \<le> py_int (cout a * 100)
                               \<and> 0 \<le> py_int (the (benefice_euros a) * 100)"
    and "i \<le> length acts" "subseq ys (take i acts)" "cout_centimes_de ys \<le> int k" "k < W"
  shows "benefice_centimes_de ys \<le> ligne_table (map en_centimes acts) W i ! k"
  using assms(2-)
proof (induction i arbitrary: ys k)
  case 0
  then have "ys = []" by (auto dest: list_emb_Nil2)
  then show ?case using 0 by (simp add: benefice_centimes_de_def)
next
  case (Suc i)
  let ?acs = "map en_centimes acts"
  let ?a = "acts ! i"
  let ?c = "py_int (cout ?a * 100)" and ?be = "py_int (the (benefice_euros ?a) * 100)"
  have i: "i < length acts" using Suc.prems by simp
  have ca: "cout_centimes (?acs ! i) = ?c" "benefice_centimes (?acs ! i) = ?be"
    using i by (simp_all add: en_centimes_def)
  have row: "ligne_table ?acs W (Suc i) ! k
               = max (ligne_table ?acs W i ! k)
                   (if ?c \<le> int k then ligne_table ?acs W i ! nat (int k - ?c) + ?be else 0)"
    using Suc.prems(4) ca by (simp add: valeur_case_def)
  have "subseq ys (take i acts @ [?a])"
    using Suc.prems(2) i by (simp add: take_Suc_conv_app_nth)
  then consider "subseq ys (take i acts)"
    | zs where "ys = zs @ [?a]" "subseq zs (take i acts)"
    using subseq_snoc_cases [of ys "take i acts" "acts ! i"] by blast
  then show ?case
  proof cases
    case 1
    then have "benefice_centimes_de ys \<le> ligne_table ?acs W i ! k"
      using Suc.IH [of ys k] Suc.prems by simp
    then show ?thesis unfolding row by (simp only: max.coboundedI1)
  next
    case 2
    have "set zs \<subseteq> set acts"
      using subseq_ensemble [OF 2(2)] set_take_subset [of i acts] by blast
    then have z0: "0 \<le> cout_centimes_de zs"
      using pos by (intro cout_centimes_de_positif) auto
    have sum: "cout_centimes_de ys = cout_centimes_de zs + ?c"
      "benefice_centimes_de ys = benefice_centimes_de zs + ?be"
      using 2(1) by (simp_all add: cout_centimes_de_def benefice_centimes_de_def)
    have ck: "?c \<le> int k" using sum(1) z0 Suc.prems(3) by simp
    have c0: "0 \<le> ?c" using pos i by simp
    have "benefice_centimes_de zs \<le> ligne_table ?acs W i ! nat (int k - ?c)"
    proof (rule Suc.IH)
      show "i \<le> length acts" using i by simp
      show "subseq zs (take i acts)" by (rule 2(2))
      show "cout_centimes_de zs \<le> int (nat (int k - ?c))"
        using Suc.prems(3) sum(1) ck by simp
      show "nat (int k - ?c) < W" using Suc.prems(4) c0 ck by simp
    qed
    then have "benefice_centimes_de ys \<le> ligne_table ?acs W i ! nat (int k - ?c) + ?be"
      using sum(2) by simp
    then show ?thesis unfolding row using ck by (simp only: if_True max.coboundedI2)
  qed
qed


lemma ligne_table_zero:
  assumes "\<forall>a \<in> set acts. 1 \<le> py_int (cout a * 100)" "i \<le> length acts" "0 < W"
  shows "ligne_table (map en_centimes acts) W i ! 0 = 0"
  using assms(2)
proof (induction i)
  case 0
  then show ?case using assms(3) by simp
next
  case (Suc i)
  then have "1 \<le> cout_centimes (map en_centimes acts ! i)"
    using assms(1) by (simp add: en_centimes_def)
  then show ?case using Suc assms(3) by (simp add: valeur_case_def)
qed

lemma remonter_atteint:
  assumes pos: "\<forall>a \<in> set acts. 1 \<le> py_int (cout a * 100)
                               \<and> 0 \<le> py_int (the (benefice_euros a) * 100)"
    and i: "i \<le> length acts" and b: "0 \<le> b" "b \<le> B"
  shows "\<exists>extra. remonter acts (map en_centimes acts)
                   (map (ligne_table (map en_centimes acts) (nat (B + 1)))
                      [0 ..< Suc (length acts)]) i b sel = Some (sel @ extra)
               \<and> benefice_centimes_de extra
                   = ligne_table (map en_centimes acts) (nat (B + 1)) i ! nat b"
  using i b
proof (induction i arbitrary: b sel)
  case 0
  then show ?case by (simp add: benefice_centimes_de_def)
next
  case (Suc i)
  let ?acs = "map en_centimes acts" and ?W = "nat (B + 1)"
  let ?T = "map (ligne_table ?acs ?W) [0 ..< Suc (length acts)]"
  have pos1: "\<forall>a \<in> set acts. 1 \<le> py_int (cout a * 100)" using pos by simp
  show ?case
  proof (cases "0 < b")
    case False
    then have "b = 0" using Suc.prems by simp
    moreover have "ligne_table ?acs ?W (Suc i) ! 0 = 0"
      using Suc.prems by (intro ligne_table_zero [OF pos1]) simp_all
    ultimately show ?thesis by (simp add: benefice_centimes_de_def del: ligne_table.simps)
  next
    case True
    then have kW: "nat b < ?W" using Suc.prems by simp
    have i: "i < length acts" using Suc.prems by simp
    let ?v = "ligne_table ?acs ?W (Suc i) ! nat b" and ?vp = "ligne_table ?acs ?W i ! nat b"
    let ?c = "py_int (cout (acts ! i) * 100)"
    let ?be = "py_int (the (benefice_euros (acts ! i)) * 100)"
    have ca: "cout_centimes (?acs ! i) = ?c" "benefice_centimes (?acs ! i) = ?be"
      using i by (simp_all add: en_centimes_def)
    have row: "?v = max ?vp (if ?c \<le> b then ligne_table ?acs ?W i ! nat (b - ?c) + ?be else 0)"
      using kW ca True by (simp add: valeur_case_def)
    have vp0: "0 \<le> ?vp"
      using pos i kW by (intro ligne_table_positive) (auto simp: en_centimes_def)
    have step: "remonter acts ?acs ?T (Suc i) b sel =
        (if ?v \<noteq> ?vp then remonter acts ?acs ?T i (b - ?c) (sel @ [acts ! i])
         else remonter acts ?acs ?T i b sel)"
      using True kW i Suc.prems
      by (simp add: idx_def en_centimes_def nat_un_plus del: upt_Suc ligne_table.simps)
    show ?thesis
    proof (cases "?v = ?vp")
      case True
      obtain extra where e: "remonter acts ?acs ?T i b sel = Some (sel @ extra)"
        "benefice_centimes_de extra = ?vp"
        using Suc.IH [of b sel] Suc.prems by auto
      then show ?thesis using step True by (auto simp del: ligne_table.simps)
    next
      case False
      then have cb: "?c \<le> b" and v: "?v = ligne_table ?acs ?W i ! nat (b - ?c) + ?be"
        using row vp0 by (auto split: if_splits simp: max_def)
      have c0: "0 \<le> ?c" using pos i by (simp add: order_trans [of 0 1])
      obtain extra where e:
        "remonter acts ?acs ?T i (b - ?c) (sel @ [acts ! i]) = Some ((sel @ [acts ! i]) @ extra)"
        "benefice_centimes_de extra = ligne_table ?acs ?W i ! nat (b - ?c)"
        using Suc.IH [of "b - ?c" "sel @ [acts ! i]"] Suc.prems c0 cb by auto
      have "benefice_centimes_de (acts ! i # extra) = ?v"
        using e(2) v by (simp add: benefice_centimes_de_def)
      then show ?thesis
        using step False e(1)
        by (intro exI [of _ "acts ! i # extra"]) (simp del: ligne_table.simps)
    qed
  qed
qed

lemma algorithme_sac_a_dos_centimes:
  assumes v: "\<forall>a \<in> set acts. action_valide a \<and> benefice_derive a"
    and un: "\<forall>a \<in> set acts. 1 \<le> py_int (cout a * 100)"
    and bud: "0 \<le> budget_max"
  shows "\<exists>sol. algorithme_sac_a_dos acts budget_max = Some sol
             \<and> subseq (actions sol) acts
             \<and> cout_centimes_de (actions sol) \<le> py_int (budget_max * 100)
             \<and> (\<forall>ys. subseq ys acts \<and> cout_centimes_de ys \<le> py_int (budget_max * 100)
                   \<longrightarrow> benefice_centimes_de ys \<le> benefice_centimes_de (actions sol))"
proof -
  let ?B = "py_int (budget_max * 100)" and ?acs = "map en_centimes acts"
  let ?W = "nat (?B + 1)"
  let ?T = "map (ligne_table ?acs ?W) [0 ..< Suc (length acts)]"
  have B0: "0 \<le> ?B" using bud by (intro py_int_positif) simp
  have conv: "convertir_actions_en_centimes acts = Some ?acs"
    using v by (intro convertir_valides) (simp add: valides_positifs)
  have "\<forall>a \<in> set ?acs. 0 \<le> cout_centimes a"
    using v by (simp add: en_centimes_def valides_positifs)
  then have tab: "creer_table_dynamique ?acs ?B = Some ?T"
    using creer_table_dynamique_eq [of ?acs ?B] by simp
  have pos: "\<forall>a \<in> set acts. 0 \<le> py_int (cout a * 100)
                        \<and> 0 \<le> py_int (the (benefice_euros a) * 100)"
    using v by (simp add: valides_positifs)
  have pos1: "\<forall>a \<in> set acts. 1 \<le> py_int (cout a * 100)
                        \<and> 0 \<le> py_int (the (benefice_euros a) * 100)"
    using un pos by simp
  from remonter_ok [OF pos, of "length acts" ?B ?B "[]"]
  obtain extra where e: "remonter acts ?acs ?T (length acts) ?B [] = Some extra"
    "sum_list (map (\<lambda>a. py_int (cout a * 100)) extra) \<le> max 0 ?B"
    "subseq (rev extra) acts"
    by auto
  from remonter_atteint [OF pos1, of "length acts" ?B ?B "[]"] B0
  obtain extra' where e': "remonter acts ?acs ?T (length acts) ?B [] = Some extra'"
    "benefice_centimes_de extra' = ligne_table ?acs ?W (length acts) ! nat ?B"
    by auto
  have ee: "extra' = extra" using e(1) e'(1) by simp
  have sub: "set (rev extra) \<subseteq> set acts" using e(3) by (rule subseq_ensemble)
  then have "\<forall>a \<in> set (rev extra). benefice_derive a" using v by auto
  then have cs: "calculer_solution (rev extra) = Some (calculer_solution_optimized (rev extra))"
    by (rule calculer_solution_valides)
  have res: "algorithme_sac_a_dos acts budget_max
               = Some (calculer_solution_optimized (rev extra))"
    using conv tab e(1) cs by (simp add: algorithme_sac_a_dos_def retrouver_actions_def)
  have act: "actions (calculer_solution_optimized (rev extra)) = rev extra"
    by (simp add: calculer_solution_optimized_def)
  have c: "cout_centimes_de (rev extra) \<le> ?B"
    using e(2) B0 by (simp add: cout_centimes_de_def rev_map [symmetric])
  have b: "benefice_centimes_de (rev extra) = ligne_table ?acs ?W (length acts) ! nat ?B"
    using e'(2) ee by (simp add: benefice_centimes_de_def rev_map [symmetric])
  have opt: "benefice_centimes_de ys \<le> benefice_centimes_de (rev extra)"
    if "subseq ys acts" "cout_centimes_de ys \<le> ?B" for ys
  proof -
    have "benefice_centimes_de ys \<le> ligne_table ?acs ?W (length acts) ! nat ?B"
    proof (rule table_majore [OF pos])
      show "length acts \<le> length acts" by simp
      show "subseq ys (take (length acts) acts)" using that(1) by simp
      show "cout_centimes_de ys \<le> int (nat ?B)" using that(2) B0 by simp
      show "nat ?B < ?W" using B0 by simp
    qed
    then show ?thesis unfolding b .
  qed
  show ?thesis
    using res e(3) c opt
    by (intro exI [of _ "calculer_solution_optimized (rev extra)"]) (simp add: act)
qed

section \<open>The scaling to centimes\<close>

text \<open>\<^verbatim>\<open>int(x * 100)\<close> drops what lies below one centime, of a cost and of a profit. The
  three evaluations below show what that does to the result of the dynamic-programming
  optimizer; the greedy optimizer, like the exhaustive one, keeps within its budget.\<close>

lemma selectionner_budget:
  assumes "0 \<le> b"
  shows "cout_de (selectionner xs b sel) \<le> cout_de sel + b"
  using assms
proof (induction xs arbitrary: b sel)
  case Nil
  then show ?case by simp
next
  case (Cons a xs)
  show ?case
  proof (cases "cout a \<le> b")
    case True
    then have "cout_de (selectionner xs (b - cout a) (sel @ [a]))
                 \<le> cout_de (sel @ [a]) + (b - cout a)"
      by (intro Cons.IH) simp
    then show ?thesis using True by (simp add: cout_de_def)
  next
    case False
    then show ?thesis using Cons by simp
  qed
qed

lemma algorithme_glouton_budget:
  assumes "0 \<le> budget_max" "algorithme_glouton acts budget_max = Some sol"
  shows "cout_total sol \<le> budget_max"
proof -
  have "sol = calculer_solution_optimized
                (selectionner (sorted_reverse (\<lambda>a. the (ratio a)) acts) budget_max [])"
    using assms(2) by (simp add: algorithme_glouton_def split: if_splits)
  then show ?thesis
    using selectionner_budget [OF assms(1), of "sorted_reverse (\<lambda>a. the (ratio a)) acts" "[]"]
    by (simp add: calculer_solution_optimized_def cout_de_def)
qed


text \<open>
  Claim C1 says that the dynamic-programming optimizer returns the greatest profit among
  the subsets within the budget, the profit of the exhaustive optimizer. On two actions
  of cost 0.10 with profits 0.015 and 0.019 and the budget 0.10, both profits scale to
  1 centime: the table cannot tell them apart, the walk keeps the first action, and the
  returned profit 0.015 is below the 0.019 that the exhaustive optimizer returns.
\<close>

theorem sac_a_dos_non_optimal:
  "algorithme_sac_a_dos [exemple_a, exemple_b] (1 / 10)
     = Some \<lparr>actions = [exemple_a], cout_total = 1 / 10, benefice_total = 3 / 200\<rparr>
   \<and> trouver_meilleure_combinaison [exemple_a, exemple_b] (1 / 10)
     = \<lparr>actions = [exemple_b], cout_total = 1 / 10, benefice_total = 19 / 1000\<rparr>"
  by code_simp

text \<open>
  Claim C2 says that no optimizer returns a selection whose cost exceeds the budget. An
  action of cost 0.105 scales to 10 centimes and fits the budget 0.10, which scales to 10
  centimes too: the dynamic-programming optimizer returns it, with the total cost 0.105.
\<close>

theorem sac_a_dos_depasse_budget:
  "algorithme_sac_a_dos [exemple_c] (1 / 10)
     = Some \<lparr>actions = [exemple_c], cout_total = 21 / 200, benefice_total = 21 / 2000\<rparr>
   \<and> (1 / 10 :: rat) < 21 / 200"
  by code_simp

text \<open>
  Claim C3 says that the greedy optimizer never returns more profit than the
  dynamic-programming optimizer. An action of cost 0.10 and profit 0.005 scales to a
  profit of 0 centimes and never changes the table: \<^verbatim>\<open>algorithme_dynamique\<close> returns
  the empty selection with profit 0, \<^verbatim>\<open>algorithme_glouton\<close> of the same module returns
  the action with profit 0.005.
\<close>

theorem glouton_meilleur_que_dynamique:
  "snd (algorithme_glouton_analyse [exemple_d] (1 / 10))
     = Some \<lparr>actions = [exemple_e], cout_total = 1 / 10, benefice_total = 1 / 200\<rparr>
   \<and> algorithme_dynamique [exemple_d] (1 / 10) = Some vide
   \<and> algorithme_dynamique [exemple_e] (1 / 10) = Some vide"
  by code_simp

section \<open>What the optimizers write\<close>




end
